theory Spec2Isabelle
  imports Complex_Main
begin

section \<open>The MQTT to InfluxDB forwarder (forwarder.py)\<close>

text \<open>
  A shallow embedding of \<^verbatim>\<open>forwarder.py\<close>: the message stores (\<^verbatim>\<open>MessageStore\<close>,
  \<^verbatim>\<open>InfluxStore\<close>), the message source (\<^verbatim>\<open>MessageSource\<close>, \<^verbatim>\<open>MQTTSource\<close>) and the
  handlers \<^verbatim>\<open>on_connect\<close> and \<^verbatim>\<open>on_message\<close> that \<^verbatim>\<open>_setup_handlers\<close> installs.

  Conventions of the embedding.
  \<^item> The script does not say which interpreter runs it (\<^verbatim>\<open>#!/usr/bin/env python\<close>), and
    the embedding fixes none. A topic is a \<^verbatim>\<open>str\<close>, a list of characters: the values of
    \<open>char\<close> below 128 are the ASCII characters, those from 128 on stand for characters
    beyond ASCII. A payload is what the MQTT client hands over: a \<^verbatim>\<open>bytes\<close> object under
    Python 3, a \<^verbatim>\<open>str\<close> under Python 2; the type \<open>payload\<close> has both.
  \<^item> The interpreter's own functions that the script calls are parameters, collected in a
    record \<open>runtime\<close>: \<^verbatim>\<open>json.loads\<close>, \<^verbatim>\<open>float\<close> of a string, of a bytes object and of an int,
    \<^verbatim>\<open>str\<close> of a bytes object, and which characters beyond ASCII the pattern \<^verbatim>\<open>\w\<close> matches
    (none under Python 2, the Unicode word characters under Python 3). The type \<open>'f\<close> is
    the type of floats.
  \<^item> An exception is a value of \<open>pyexn\<close>; a handler returns \<open>Some e\<close> when \<open>e\<close> leaves it
    and \<open>None\<close> when it returns normally.
  \<^item> Python lists are objects: the list of registered stores lives in a heap of list
    objects, and a variable holds its address.
  \<^item> The InfluxDB client is a parameter of each \<open>InfluxStore\<close>: what \<^verbatim>\<open>write_points\<close>
    does to the backend (of type \<open>'b\<close>) and which exception, if any, it raises.
\<close>

subsection \<open>Python values and exceptions\<close>

datatype pyexn =
    ValueError
  | TypeError
  | OverflowError
  | KeyError
  | AttributeError
  | NotImplementedError
  | RequestsConnectionError
  | InfluxDBClientError
  | InfluxDBServerError
  | RecursionError
  | OtherException string

datatype 'f pyval =
    PNone
  | PBool bool
  | PInt int
  | PFloat 'f
  | PStr string
  | PBytes string
  | PList "'f pyval list"
  | PDict "(string \<times> 'f pyval) list"

text \<open>\<^verbatim>\<open>msg.payload\<close>: a \<^verbatim>\<open>str\<close> or a \<^verbatim>\<open>bytes\<close> object, with its characters or its bytes.\<close>

datatype payload = Text string | Bytes string

fun payload_value :: "payload \<Rightarrow> 'f pyval" where
  "payload_value (Text s) = PStr s"
| "payload_value (Bytes s) = PBytes s"

fun payload_text :: "payload \<Rightarrow> string" where
  "payload_text (Text s) = s"
| "payload_text (Bytes s) = s"

text \<open>
  \<open>json_loads\<close> returns the exception that \<^verbatim>\<open>json.loads\<close> raises, or its result;
  \<open>float_of_str\<close>, \<open>float_of_bytes\<close> and \<open>float_of_int\<close> return \<open>None\<close> where \<^verbatim>\<open>float\<close> raises
  (\<^verbatim>\<open>ValueError\<close> for a string or a bytes object, \<^verbatim>\<open>OverflowError\<close> for an int);
  \<open>str_of_bytes\<close> is \<^verbatim>\<open>str\<close> of a bytes object; \<open>unicode_word\<close> says which characters beyond
  ASCII \<^verbatim>\<open>\w\<close> matches.
\<close>

record 'f runtime =
  json_loads :: "payload \<Rightarrow> pyexn + 'f pyval"
  float_of_str :: "string \<Rightarrow> 'f option"
  float_of_bytes :: "string \<Rightarrow> 'f option"
  float_of_int :: "int \<Rightarrow> 'f option"
  float_of_bool :: "bool \<Rightarrow> 'f"
  str_of_bytes :: "string \<Rightarrow> string"
  unicode_word :: "char \<Rightarrow> bool"

text \<open>
  The builtin \<^verbatim>\<open>float(x)\<close>: a string or a bytes object is parsed (\<^verbatim>\<open>ValueError\<close> when it is
  no float literal), a bool or an int is converted (\<^verbatim>\<open>OverflowError\<close> for an int too large), a float is
  returned, and \<^verbatim>\<open>None\<close>, a list and a dict raise \<^verbatim>\<open>TypeError\<close>.
\<close>

fun py_float :: "'f runtime \<Rightarrow> 'f pyval \<Rightarrow> pyexn + 'f" where
  "py_float rt PNone = Inl TypeError"
| "py_float rt (PBool b) = Inr (float_of_bool rt b)"
| "py_float rt (PInt i) = (case float_of_int rt i of None \<Rightarrow> Inl OverflowError | Some f \<Rightarrow> Inr f)"
| "py_float rt (PFloat f) = Inr f"
| "py_float rt (PStr s) = (case float_of_str rt s of None \<Rightarrow> Inl ValueError | Some f \<Rightarrow> Inr f)"
| "py_float rt (PBytes s) =
     (case float_of_bytes rt s of None \<Rightarrow> Inl ValueError | Some f \<Rightarrow> Inr f)"
| "py_float rt (PList xs) = Inl TypeError"
| "py_float rt (PDict d) = Inl TypeError"

text \<open>The builtin \<^verbatim>\<open>str(x)\<close> on a payload: a \<^verbatim>\<open>str\<close> is returned as it is.\<close>

fun py_str :: "'f runtime \<Rightarrow> payload \<Rightarrow> string" where
  "py_str rt (Text s) = s"
| "py_str rt (Bytes s) = str_of_bytes rt s"

fun isinstance_dict :: "'f pyval \<Rightarrow> bool" where
  "isinstance_dict (PDict d) = True"
| "isinstance_dict v = False"

text \<open>\<^verbatim>\<open>d[k] = v\<close> on a dict kept as an association list in insertion order.\<close>

fun dict_setitem :: "string \<Rightarrow> 'v \<Rightarrow> (string \<times> 'v) list \<Rightarrow> (string \<times> 'v) list" where
  "dict_setitem k v [] = [(k, v)]"
| "dict_setitem k v ((k', v') # d) =
     (if k' = k then (k, v) # d else (k', v') # dict_setitem k v d)"

subsection \<open>The world: log, heap of list objects, backend\<close>

record 'f influx_msg =
  measurement :: string
  tags :: "(string \<times> string) list"
  influx_fields :: "'f pyval"

datatype ('f, 'b) store =
    MessageStore
  | InfluxStore "'f influx_msg list \<Rightarrow> 'b \<Rightarrow> pyexn option \<times> 'b"

datatype 'f log_record =
    MQTT_debug_received string payload
  | MQTT_warning_no_match string
  | MQTT_warning_unexpected_node string "string list"
  | MQTT_info_connected int
  | MQTT_info_subscribing string string
  | Influx_debug_writing "'f influx_msg"
  | Influx_exception pyexn

text \<open>
  \<open>invocations\<close> is a ghost field: the dispatch loop of \<^verbatim>\<open>on_message\<close> records in it every
  call \<^verbatim>\<open>store.store_msg(node_name, measurement_name, stored_message)\<close> it makes, before
  the call. Nothing reads it.
\<close>

record ('f, 'b) world =
  logs :: "'f log_record list"
  heap :: "('f, 'b) store list list"
  backend :: "'b"
  subscriptions :: "string list"
  invocations :: "(('f, 'b) store \<times> string \<times> string \<times> 'f pyval) list"

definition log_msg :: "'f log_record \<Rightarrow> ('f, 'b) world \<Rightarrow> ('f, 'b) world" where
  "log_msg r w = w\<lparr>logs := logs w @ [r]\<rparr>"

subsection \<open>MessageStore and InfluxStore\<close>

fun store_msg ::
  "('f, 'b) store \<Rightarrow> string \<Rightarrow> string \<Rightarrow> 'f pyval \<Rightarrow> ('f, 'b) world \<Rightarrow> pyexn option \<times> ('f, 'b) world"
where
  "store_msg MessageStore node_name measurement_name data w = (Some NotImplementedError, w)"
| "store_msg (InfluxStore write_points) node_name measurement_name data w =
     (if \<not> isinstance_dict data then (Some ValueError, w)
      else
        let influx_msg = \<lparr>measurement = measurement_name,
                          tags = [(''sensor_node'', node_name)],
                          influx_fields = data\<rparr>;
            w1 = log_msg (Influx_debug_writing influx_msg) w;
            (r, b) = write_points [influx_msg] (backend w1);
            w2 = w1\<lparr>backend := b\<rparr>
        in case r of
             None \<Rightarrow> (None, w2)
           | Some e \<Rightarrow>
               if e = RequestsConnectionError then (None, log_msg (Influx_exception e) w2)
               else (Some e, w2))"

subsection \<open>MessageSource\<close>

text \<open>
  \<open>stores_attr\<close> is the attribute \<^verbatim>\<open>_stores\<close>: \<open>None\<close> while the object has no such
  attribute, \<open>Some a\<close> when it holds the list object at address \<open>a\<close>.
\<close>

record mqtt_source =
  node_names :: "string list"
  topic_prefix :: string
  stringify :: "string list"
  stores_attr :: "nat option"

definition register_store ::
  "mqtt_source \<Rightarrow> ('f, 'b) store \<Rightarrow> ('f, 'b) world \<Rightarrow> mqtt_source \<times> ('f, 'b) world"
where
  "register_store self store w =
     (let (self1, w1) =
            (case stores_attr self of
               None \<Rightarrow> (self\<lparr>stores_attr := Some (length (heap w))\<rparr>, w\<lparr>heap := heap w @ [[]]\<rparr>)
             | Some a \<Rightarrow> (self, w))
      in case stores_attr self1 of
           None \<Rightarrow> (self1, w1)
         | Some a \<Rightarrow> (self1, w1\<lparr>heap := (heap w1)[a := heap w1 ! a @ [store]]\<rparr>))"

text \<open>The property \<^verbatim>\<open>stores\<close>: \<^verbatim>\<open>list(self._stores)\<close> builds a new list object.\<close>

definition stores ::
  "mqtt_source \<Rightarrow> ('f, 'b) world \<Rightarrow> (pyexn + nat) \<times> ('f, 'b) world"
where
  "stores self w =
     (case stores_attr self of
        None \<Rightarrow> (Inl AttributeError, w)
      | Some a \<Rightarrow> (Inr (length (heap w)), w\<lparr>heap := heap w @ [heap w ! a]\<rparr>))"

subsection \<open>MQTTSource\<close>

text \<open>The prefix part of \<^verbatim>\<open>_setup_handlers\<close> (the MQTT client it creates is not modelled).\<close>

definition startswith :: "string \<Rightarrow> string \<Rightarrow> bool" where
  "startswith s p = (take (length p) s = p)"

definition endswith :: "string \<Rightarrow> string \<Rightarrow> bool" where
  "endswith s p = (length p \<le> length s \<and> drop (length s - length p) s = p)"

definition setup_handlers :: "mqtt_source \<Rightarrow> mqtt_source" where
  "setup_handlers self =
     (if topic_prefix self \<noteq> [] then
        let self1 = (if \<not> startswith (topic_prefix self) ''/''
                     then self\<lparr>topic_prefix := ''/'' @ topic_prefix self\<rparr> else self);
            self2 = (if endswith (topic_prefix self1) ''/''
                     then self1\<lparr>topic_prefix := butlast (topic_prefix self1)\<rparr> else self1)
        in self2
      else self)"

definition mqtt_source_init :: "string list \<Rightarrow> string \<Rightarrow> string list \<Rightarrow> mqtt_source" where
  "mqtt_source_init names prefix stringify_values_for_measurements =
     setup_handlers \<lparr>node_names = names, topic_prefix = prefix,
                     stringify = stringify_values_for_measurements, stores_attr = None\<rparr>"

fun subscribe_all :: "string \<Rightarrow> string list \<Rightarrow> ('f, 'b) world \<Rightarrow> ('f, 'b) world" where
  "subscribe_all prefix [] w = w"
| "subscribe_all prefix (node_name # ns) w =
     (let topic = prefix @ ''/'' @ node_name @ ''/#'';
          w1 = log_msg (MQTT_info_subscribing topic node_name) w
      in subscribe_all prefix ns (w1\<lparr>subscriptions := subscriptions w1 @ [topic]\<rparr>))"

definition on_connect :: "mqtt_source \<Rightarrow> int \<Rightarrow> ('f, 'b) world \<Rightarrow> ('f, 'b) world" where
  "on_connect self rc w =
     subscribe_all (topic_prefix self) (node_names self) (log_msg (MQTT_info_connected rc) w)"

subsubsection \<open>The topic pattern\<close>

text \<open>
  \<^verbatim>\<open>token_pattern = r'(?:\w|-|\.)+'\<close>, and the pattern
  \<^verbatim>\<open>{topic_prefix}/(?P<node_name>{token_pattern})/(?P<measurement_name>{token_pattern})/?\<close>
  applied with \<^verbatim>\<open>regex.match\<close>, which anchors the match at the start of the topic only.
  No token character is a slash, so each group takes the longest run of token characters:
  a shorter run would be followed by a token character where the pattern wants a slash
  (first group) or would only shorten the match (second group, which is greedy).

  \<^verbatim>\<open>\w\<close> matches the ASCII letters, the digits and the underscore under every
  interpreter; beyond ASCII it matches what the runtime says.

  The prefix is pasted into the pattern as it is. \<open>regex_match\<close> is the pattern's
  meaning for a prefix that \<open>regex_literal\<close> accepts, one without a character that is
  special in a pattern; for any other prefix the pattern means something else, and this
  embedding says nothing about it.
\<close>

definition word_char :: "'f runtime \<Rightarrow> char \<Rightarrow> bool" where
  "word_char rt c =
     (if (of_char c :: nat) < 128
      then c \<in> set ''abcdefghijklmnopqrstuvwxyzABCDEFGHIJKLMNOPQRSTUVWXYZ0123456789_''
      else unicode_word rt c)"

definition token_char :: "'f runtime \<Rightarrow> char \<Rightarrow> bool" where
  "token_char rt c = (word_char rt c \<or> c = CHR ''-'' \<or> c = CHR ''.'')"

definition regex_special :: "char \<Rightarrow> bool" where
  "regex_special c =
     (c \<in> set [CHR ''.'', CHR ''^'', CHR ''$'', CHR ''*'', CHR ''+'', CHR ''?'', CHR ''{'',
               CHR ''}'', CHR ''['', CHR '']'', CHR 0x5C, CHR ''|'', CHR ''('', CHR '')''])"

definition regex_literal :: "string \<Rightarrow> bool" where
  "regex_literal p = (filter regex_special p = [])"

fun strip_prefix :: "string \<Rightarrow> string \<Rightarrow> string option" where
  "strip_prefix [] s = Some s"
| "strip_prefix (p # ps) [] = None"
| "strip_prefix (p # ps) (c # cs) = (if p = c then strip_prefix ps cs else None)"

definition regex_match ::
  "'f runtime \<Rightarrow> string \<Rightarrow> string \<Rightarrow> (string \<times> string) option" where
  "regex_match rt prefix topic =
     (case strip_prefix (prefix @ ''/'') topic of
        None \<Rightarrow> None
      | Some r \<Rightarrow>
          (let node_name = takeWhile (token_char rt) r in
           if node_name = [] then None
           else (case dropWhile (token_char rt) r of
                   [] \<Rightarrow> None
                 | c # r2 \<Rightarrow>
                     if c \<noteq> CHR ''/'' then None
                     else let measurement_name = takeWhile (token_char rt) r2 in
                          if measurement_name = [] then None
                          else Some (node_name, measurement_name))))"

subsubsection \<open>Decoding the payload (lines 133 to 157 of on_message)\<close>

text \<open>
  The loop \<^verbatim>\<open>for key in stored_message.keys()\<close>: \<^verbatim>\<open>ValueError\<close> from \<^verbatim>\<open>float\<close> is passed
  over, any other exception leaves the loop and the handler.
\<close>

fun coerce_keys ::
  "'f runtime \<Rightarrow> string list \<Rightarrow> (string \<times> 'f pyval) list \<Rightarrow> pyexn + (string \<times> 'f pyval) list"
where
  "coerce_keys rt [] stored_message = Inr stored_message"
| "coerce_keys rt (key # keys) stored_message =
     (case map_of stored_message key of
        None \<Rightarrow> Inl KeyError
      | Some v \<Rightarrow>
          (case py_float rt v of
             Inr f \<Rightarrow> coerce_keys rt keys (dict_setitem key (PFloat f) stored_message)
           | Inl e \<Rightarrow> if e = ValueError then coerce_keys rt keys stored_message else Inl e))"

text \<open>
  The branch for a payload that is no JSON object (lines 150 to 157): \<^verbatim>\<open>value\<close> is the
  payload, \<^verbatim>\<open>str(value)\<close> for a measurement of the stringify set, and otherwise
  \<^verbatim>\<open>float(value)\<close>, or the payload itself when \<^verbatim>\<open>float\<close> raises \<^verbatim>\<open>ValueError\<close>.
\<close>

definition single_value ::
  "'f runtime \<Rightarrow> string list \<Rightarrow> string \<Rightarrow> payload \<Rightarrow> pyexn + 'f pyval" where
  "single_value rt stringify_set measurement_name payload =
     (if measurement_name \<in> set stringify_set
      then Inr (PDict [(''value'', PStr (py_str rt payload))])
      else (case py_float rt (payload_value payload) of
              Inr f \<Rightarrow> Inr (PDict [(''value'', PFloat f)])
            | Inl e \<Rightarrow>
                if e = ValueError then Inr (PDict [(''value'', payload_value payload)])
                else Inl e))"

definition decode_payload ::
  "'f runtime \<Rightarrow> string list \<Rightarrow> string \<Rightarrow> payload \<Rightarrow> pyexn + 'f pyval"
where
  "decode_payload rt stringify_set measurement_name payload =
     (case json_loads rt payload of
        Inl e \<Rightarrow>
          if e = ValueError then single_value rt stringify_set measurement_name payload
          else Inl e
      | Inr stored_message \<Rightarrow>
          (case stored_message of
             PDict d \<Rightarrow>
               (case coerce_keys rt (map fst d) d of
                  Inl e \<Rightarrow> Inl e
                | Inr d' \<Rightarrow> Inr (PDict d'))
           | _ \<Rightarrow> single_value rt stringify_set measurement_name payload))"

subsubsection \<open>Dispatch (lines 159 and 160) and on_message\<close>

fun dispatch ::
  "('f, 'b) store list \<Rightarrow> string \<Rightarrow> string \<Rightarrow> 'f pyval \<Rightarrow> ('f, 'b) world
     \<Rightarrow> pyexn option \<times> ('f, 'b) world"
where
  "dispatch [] node_name measurement_name stored_message w = (None, w)"
| "dispatch (store # rest) node_name measurement_name stored_message w =
     (case store_msg store node_name measurement_name stored_message
             (w\<lparr>invocations := invocations w
                    @ [(store, node_name, measurement_name, stored_message)]\<rparr>) of
        (Some e, w') \<Rightarrow> (Some e, w')
      | (None, w') \<Rightarrow> dispatch rest node_name measurement_name stored_message w')"

definition on_message ::
  "'f runtime \<Rightarrow> mqtt_source \<Rightarrow> string \<Rightarrow> payload \<Rightarrow> ('f, 'b) world
     \<Rightarrow> pyexn option \<times> ('f, 'b) world"
where
  "on_message rt self topic payload w =
     (let w1 = log_msg (MQTT_debug_received topic payload) w in
      case regex_match rt (topic_prefix self) topic of
        None \<Rightarrow> (None, log_msg (MQTT_warning_no_match topic) w1)
      | Some (node_name, measurement_name) \<Rightarrow>
          (let w2 = (if node_name \<notin> set (node_names self)
                     then log_msg (MQTT_warning_unexpected_node node_name (node_names self)) w1
                     else w1)
           in (case decode_payload rt (stringify self) measurement_name payload of
                 Inl e \<Rightarrow> (Some e, w2)
               | Inr stored_message \<Rightarrow>
                   (case stores self w2 of
                      (Inl e, w3) \<Rightarrow> (Some e, w3)
                    | (Inr r, w3) \<Rightarrow>
                        dispatch (heap w3 ! r) node_name measurement_name stored_message w3))))"

text \<open>
  The world when \<^verbatim>\<open>on_message\<close> has logged what it logs for a topic that the pattern
  matched with node name \<open>node_name\<close>: the debug record, and the warning for a node name
  that is not among \<^verbatim>\<open>self.node_names\<close>.
\<close>

definition received ::
  "mqtt_source \<Rightarrow> string \<Rightarrow> payload \<Rightarrow> string \<Rightarrow> ('f, 'b) world \<Rightarrow> ('f, 'b) world"
where
  "received self topic payload node_name w =
     (let w1 = log_msg (MQTT_debug_received topic payload) w
      in if node_name \<notin> set (node_names self)
         then log_msg (MQTT_warning_unexpected_node node_name (node_names self)) w1
         else w1)"

subsection \<open>Sequences of calls\<close>

text \<open>\<^verbatim>\<open>register_store\<close> called once for each store of a list, in the list's order.\<close>

fun register_all ::
  "mqtt_source \<Rightarrow> ('f, 'b) store list \<Rightarrow> ('f, 'b) world \<Rightarrow> mqtt_source \<times> ('f, 'b) world"
where
  "register_all self [] w = (self, w)"
| "register_all self (store # rest) w =
     (case register_store self store w of (self1, w1) \<Rightarrow> register_all self1 rest w1)"

text \<open>
  What can happen to a source once \<^verbatim>\<open>__init__\<close> has returned: a store is registered, the
  property \<^verbatim>\<open>stores\<close> is read, the client connects, a message arrives. \<open>after_events\<close> is
  the source and the world after a sequence of such calls, whatever each call returned.
\<close>

datatype ('f, 'b) event =
    Register "('f, 'b) store"
  | ReadStores
  | Connect int
  | Message string payload

fun handle_event ::
  "'f runtime \<Rightarrow> mqtt_source \<times> ('f, 'b) world \<Rightarrow> ('f, 'b) event \<Rightarrow> mqtt_source \<times> ('f, 'b) world"
where
  "handle_event rt (self, w) (Register store) = register_store self store w"
| "handle_event rt (self, w) ReadStores = (self, snd (stores self w))"
| "handle_event rt (self, w) (Connect rc) = (self, on_connect self rc w)"
| "handle_event rt (self, w) (Message topic payload) = (self, snd (on_message rt self topic payload w))"

definition after_events ::
  "'f runtime \<Rightarrow> ('f, 'b) event list \<Rightarrow> mqtt_source \<times> ('f, 'b) world \<Rightarrow> mqtt_source \<times> ('f, 'b) world"
where
  "after_events rt evs sw = foldl (handle_event rt) sw evs"

subsection \<open>Notions of the specification\<close>

text \<open>A token of the specification: a non-empty string of token characters.\<close>

definition token :: "'f runtime \<Rightarrow> string \<Rightarrow> bool" where
  "token rt s = (s \<noteq> [] \<and> list_all (token_char rt) s)"

text \<open>
  The expected shape of a topic, in the specification's words
  \<^verbatim>\<open><prefix>/<token>/<token>[/optional-trailing-slash-or-more]\<close>: the two tokens are the whole
  of their path segments, and after them the topic ends or goes on with a slash.
\<close>

definition spec_shape ::
  "'f runtime \<Rightarrow> string \<Rightarrow> string \<Rightarrow> string \<Rightarrow> string \<Rightarrow> bool" where
  "spec_shape rt prefix topic node_name measurement_name =
     (\<exists>tail. topic = prefix @ ''/'' @ node_name @ ''/'' @ measurement_name @ tail
         \<and> token rt node_name \<and> token rt measurement_name
         \<and> (tail = [] \<or> startswith tail ''/''))"

text \<open>The topic begins with \<^verbatim>\<open><prefix>/<token>/<token>\<close>, whatever comes after.\<close>

definition shape_at_start :: "'f runtime \<Rightarrow> string \<Rightarrow> string \<Rightarrow> bool" where
  "shape_at_start rt prefix topic =
     (\<exists>node_name measurement_name rest.
         topic = prefix @ ''/'' @ node_name @ ''/'' @ measurement_name @ rest
         \<and> token rt node_name \<and> token rt measurement_name)"




subsection \<open>A sample runtime, sample clients and a sample world\<close>


definition sample_json :: "(string \<times> rat pyval) list" where
  \<open>sample_json =
     [(''{"a": "1.5", "b": "x"}'', PDict [(''a'', PStr ''1.5''), (''b'', PStr ''x'')]),
      (''{"a": null}'', PDict [(''a'', PNone)]),
      (''23.4'', PFloat (117 / 5)),
      (''1'', PInt 1)]\<close>

definition sample_rt :: "rat runtime" where
  "sample_rt =
     \<lparr>json_loads =
        (\<lambda>p. if 2000 \<le> length (payload_text p) \<and> set (payload_text p) = {CHR ''[''}
             then Inl RecursionError
             else (case map_of sample_json (payload_text p) of
                     None \<Rightarrow> Inl ValueError
                   | Some v \<Rightarrow> Inr v)),
      float_of_str = map_of [(''1.5'', 3 / 2), (''23.4'', 117 / 5), (''1'', 1)],
      float_of_bytes = map_of [(''1.5'', 3 / 2), (''23.4'', 117 / 5), (''1'', 1)],
      float_of_int = (\<lambda>i. Some (of_int i)),
      float_of_bool = (\<lambda>b. if b then 1 else 0),
      str_of_bytes = (\<lambda>s. ''b'' @ [CHR 0x27] @ s @ [CHR 0x27]),
      unicode_word =
        (\<lambda>c. (of_char c :: nat) \<in> set [170, 178, 179, 181, 185, 186, 188, 189, 190]
             \<or> (192 \<le> (of_char c :: nat) \<and> (of_char c :: nat) \<le> 214)
             \<or> (216 \<le> (of_char c :: nat) \<and> (of_char c :: nat) \<le> 246)
             \<or> 248 \<le> (of_char c :: nat))\<rparr>"

type_synonym sample_backend = "rat influx_msg list"

definition accepting_client ::
  "rat influx_msg list \<Rightarrow> sample_backend \<Rightarrow> pyexn option \<times> sample_backend" where
  "accepting_client points b = (None, b @ points)"

definition unreachable_client ::
  "rat influx_msg list \<Rightarrow> sample_backend \<Rightarrow> pyexn option \<times> sample_backend" where
  "unreachable_client points b = (Some RequestsConnectionError, b)"

definition rejecting_client ::
  "rat influx_msg list \<Rightarrow> sample_backend \<Rightarrow> pyexn option \<times> sample_backend" where
  "rejecting_client points b = (Some InfluxDBClientError, b)"

definition empty_world :: "(rat, sample_backend) world" where
  "empty_world = \<lparr>logs = [], heap = [], backend = [], subscriptions = [], invocations = []\<rparr>"

text \<open>
  A source as \<^verbatim>\<open>main\<close> builds it with \<^verbatim>\<open>--node-name n\<close> and no prefix, before any store is
  registered.
\<close>

definition sample_source :: mqtt_source where
  "sample_source = mqtt_source_init [''n''] [] []"

text \<open>
  The value that the loop over the keys of a JSON object leaves under a key whose
  conversion does not abort the loop.
\<close>

definition coerce_value :: "'f runtime \<Rightarrow> 'f pyval \<Rightarrow> 'f pyval" where
  "coerce_value rt v = (case py_float rt v of Inr f \<Rightarrow> PFloat f | Inl e \<Rightarrow> v)"

text \<open>
  The sample source with two stores registered: in \<open>registered_sample\<close> the first store
  cannot reach its backend and the second writes; in \<open>rejected_sample\<close> the backend of
  the first store rejects the write.
\<close>

definition registered_sample :: "mqtt_source \<times> (rat, sample_backend) world" where
  "registered_sample =
     register_all sample_source [InfluxStore unreachable_client, InfluxStore accepting_client]
       empty_world"

definition rejected_sample :: "mqtt_source \<times> (rat, sample_backend) world" where
  "rejected_sample =
     register_all sample_source [InfluxStore rejecting_client, InfluxStore accepting_client]
       empty_world"

text \<open>
  A backend that is out of reach for the next \<open>k\<close> writes: its state is \<open>k\<close> and the points
  written so far.
\<close>

definition recovering_client ::
  "rat influx_msg list \<Rightarrow> nat \<times> rat influx_msg list
     \<Rightarrow> pyexn option \<times> (nat \<times> rat influx_msg list)" where
  "recovering_client points b =
     (case b of (k, written) \<Rightarrow>
        if 0 < k then (Some RequestsConnectionError, (k - 1, written))
        else (None, (k, written @ points)))"

definition outage_world :: "(rat, nat \<times> rat influx_msg list) world" where
  "outage_world =
     \<lparr>logs = [], heap = [], backend = (1, []), subscriptions = [], invocations = []\<rparr>"

section \<open>Properties\<close>

subsection \<open>The topic pattern\<close>

lemma token_char_slash: "\<not> token_char rt (CHR ''/'')"
  by (simp add: token_char_def word_char_def)

lemma strip_prefix_append: "strip_prefix p (p @ s) = Some s"
  by (induction p) auto

lemma strip_prefix_Some: "strip_prefix p s = Some r \<Longrightarrow> s = p @ r"
  by (induction p s rule: strip_prefix.induct) (auto split: if_splits)

lemma token_all: "token rt s \<Longrightarrow> \<forall>c\<in>set s. token_char rt c"
  by (simp add: token_def list_all_iff)

lemma takeWhile_token:
  assumes "token rt s" and "r = [] \<or> \<not> token_char rt (hd r)"
  shows "takeWhile (token_char rt) (s @ r) = s" and "dropWhile (token_char rt) (s @ r) = r"
  using assms token_all [of rt s]
  by (cases r; simp add: takeWhile_append2 dropWhile_append2 takeWhile_tail dropWhile_append3)+

lemma regex_match_exact:
  assumes "token rt n" and "token rt m" and "tail = [] \<or> \<not> token_char rt (hd tail)"
  shows "regex_match rt prefix (prefix @ ''/'' @ n @ ''/'' @ m @ tail) = Some (n, m)"
proof -
  have s: "strip_prefix (prefix @ ''/'') (prefix @ ''/'' @ n @ ''/'' @ m @ tail) = Some (n @ ''/'' @ m @ tail)"
    using strip_prefix_append [of "prefix @ ''/''" "n @ ''/'' @ m @ tail"] by simp
  have a: "takeWhile (token_char rt) (n @ ''/'' @ m @ tail) = n"
    and b: "dropWhile (token_char rt) (n @ ''/'' @ m @ tail) = ''/'' @ m @ tail"
    using takeWhile_token [OF assms(1), of "''/'' @ m @ tail"] token_char_slash [of rt]
    by simp_all
  have c: "takeWhile (token_char rt) (m @ tail) = m"
    using takeWhile_token [OF assms(2) assms(3)] by simp
  have "n \<noteq> []" "m \<noteq> []" using assms by (simp_all add: token_def)
  then show ?thesis
    unfolding regex_match_def s using a b c by simp
qed

lemma regex_match_shape:
  assumes "regex_match rt prefix topic = Some (n, m)"
  shows "\<exists>rest. topic = prefix @ ''/'' @ n @ ''/'' @ m @ rest \<and> token rt n \<and> token rt m
           \<and> (rest = [] \<or> \<not> token_char rt (hd rest))"
proof -
  from assms obtain r where r: "strip_prefix (prefix @ ''/'') topic = Some r"
    by (auto simp: regex_match_def split: option.splits)
  from assms r obtain r2 where
    n: "n = takeWhile (token_char rt) r" "n \<noteq> []" and
    d: "dropWhile (token_char rt) r = CHR ''/'' # r2" and
    m: "m = takeWhile (token_char rt) r2" "m \<noteq> []"
    by (auto simp: regex_match_def Let_def split: list.splits if_splits)
  have "r = n @ CHR ''/'' # r2" using n d takeWhile_dropWhile_id [of "token_char rt" r] by simp
  moreover have "r2 = m @ dropWhile (token_char rt) r2" using m by simp
  moreover have "token rt n" "token rt m"
    using n m by (auto simp add: token_def list_all_iff dest: set_takeWhileD)
  moreover have "dropWhile (token_char rt) r2 = [] \<or> \<not> token_char rt (hd (dropWhile (token_char rt) r2))"
    by (metis hd_dropWhile)
  ultimately show ?thesis using strip_prefix_Some [OF r] 
    by (metis append_Cons append_Nil append_assoc)
qed

lemma regex_match_None_iff: "regex_match rt prefix topic = None \<longleftrightarrow> \<not> shape_at_start rt prefix topic"
proof
  assume "regex_match rt prefix topic = None"
  show "\<not> shape_at_start rt prefix topic"
  proof
    assume "shape_at_start rt prefix topic"
    then obtain n m rest where t: "topic = prefix @ ''/'' @ n @ ''/'' @ m @ rest" and tk: "token rt n" "token rt m"
      by (auto simp: shape_at_start_def)
    let ?m = "m @ takeWhile (token_char rt) rest"
    have "token rt ?m" using tk(2) by (auto simp: token_def list_all_iff dest: set_takeWhileD)
    moreover have "dropWhile (token_char rt) rest = [] \<or> \<not> token_char rt (hd (dropWhile (token_char rt) rest))"
      by (metis hd_dropWhile)
    ultimately have "regex_match rt prefix (prefix @ ''/'' @ n @ ''/'' @ ?m @ dropWhile (token_char rt) rest) = Some (n, ?m)"
      using regex_match_exact [OF tk(1)] by blast
    then show False using t \<open>regex_match rt prefix topic = None\<close> by simp
  qed
next
  assume "\<not> shape_at_start rt prefix topic"
  show "regex_match rt prefix topic = None"
  proof (rule ccontr)
    assume "regex_match rt prefix topic \<noteq> None"
    then obtain n m where "regex_match rt prefix topic = Some (n, m)" by auto
    from regex_match_shape [OF this] have "shape_at_start rt prefix topic"
      unfolding shape_at_start_def by blast
    with \<open>\<not> shape_at_start rt prefix topic\<close> show False by simp
  qed
qed

subsection \<open>Decoding\<close>

lemma py_float_payload: "py_float rt (payload_value payload) = Inl e \<Longrightarrow> e = ValueError"
  by (cases payload) (auto split: option.splits)


lemma single_value_returns:
  "single_value rt sfy m payload
     = Inr (PDict [(''value'',
                    if m \<in> set sfy then PStr (py_str rt payload)
                    else (case py_float rt (payload_value payload) of
                            Inr f \<Rightarrow> PFloat f
                          | Inl e \<Rightarrow> payload_value payload))])"
  using py_float_payload [of rt payload]
  by (auto simp: single_value_def split: sum.splits)


lemma map_of_fresh_append:
  assumes "k \<notin> fst ` set d1"
  shows "map_of (d1 @ (k, v) # d2) k = Some v"
  using assms by (induction d1) auto

lemma dict_setitem_fresh_append:
  assumes "k \<notin> fst ` set d1"
  shows "dict_setitem k v' (d1 @ (k, v) # d2) = d1 @ (k, v') # d2"
  using assms by (induction d1) auto

lemma coerce_keys_append:
  assumes "distinct (map fst (d1 @ d2))"
    and "\<And>k v e. (k, v) \<in> set d2 \<Longrightarrow> py_float rt v = Inl e \<Longrightarrow> e = ValueError"
  shows "coerce_keys rt (map fst d2) (d1 @ d2)
           = Inr (d1 @ map (\<lambda>(k, v). (k, coerce_value rt v)) d2)"
  using assms
proof (induction d2 arbitrary: d1)
  case Nil
  show ?case by simp
next
  case (Cons kv d2)
  obtain k v where kv: "kv = (k, v)" by (cases kv)
  have fresh: "k \<notin> fst ` set d1" using Cons.prems(1) kv by auto
  have look: "map_of (d1 @ (k, v) # d2) k = Some v" by (rule map_of_fresh_append [OF fresh])
  have rest: "e = ValueError" if "(k', v') \<in> set d2" and "py_float rt v' = Inl e" for k' v' e
    using Cons.prems(2) [of k' v' e] that by simp
  show ?case
  proof (cases "py_float rt v")
    case (Inl e)
    have e: "e = ValueError" using Cons.prems(2) [of k v e] kv Inl by simp
    have d: "distinct (map fst ((d1 @ [(k, v)]) @ d2))" using Cons.prems(1) kv by simp
    have "coerce_keys rt (map fst d2) ((d1 @ [(k, v)]) @ d2)
            = Inr ((d1 @ [(k, v)]) @ map (\<lambda>(k, v). (k, coerce_value rt v)) d2)"
      by (rule Cons.IH [OF d rest])
    then show ?thesis using kv look Inl e by (simp add: coerce_value_def)
  next
    case (Inr f)
    have d: "distinct (map fst ((d1 @ [(k, PFloat f)]) @ d2))" using Cons.prems(1) kv by simp
    have "coerce_keys rt (map fst d2) ((d1 @ [(k, PFloat f)]) @ d2)
            = Inr ((d1 @ [(k, PFloat f)]) @ map (\<lambda>(k, v). (k, coerce_value rt v)) d2)"
      by (rule Cons.IH [OF d rest])
    then show ?thesis
      using kv look Inr by (simp add: coerce_value_def dict_setitem_fresh_append [OF fresh])
  qed
qed

text \<open>
  A JSON object none of whose values makes \<^verbatim>\<open>float\<close> raise anything but \<^verbatim>\<open>ValueError\<close>
  decodes to the object with every value converted where \<^verbatim>\<open>float\<close> accepts it, and left
  as it is elsewhere.
\<close>

lemma decode_json_object:
  assumes "json_loads rt payload = Inr (PDict d)" and "distinct (map fst d)"
    and "\<And>k v e. (k, v) \<in> set d \<Longrightarrow> py_float rt v = Inl e \<Longrightarrow> e = ValueError"
  shows "decode_payload rt stringify_set measurement_name payload
           = Inr (PDict (map (\<lambda>(k, v). (k, coerce_value rt v)) d))"
  using coerce_keys_append [of "[]" d rt] assms by (simp add: decode_payload_def)

subsection \<open>Stores and dispatch\<close>

lemma store_msg_invocations: "invocations (snd (store_msg s n m d w)) = invocations w"
  by (cases s) (auto simp: log_msg_def Let_def split: prod.splits option.splits)

lemma store_msg_heap: "heap (snd (store_msg s n m d w)) = heap w"
  by (cases s) (auto simp: log_msg_def Let_def split: prod.splits option.splits)

lemma store_msg_backend_only:
  assumes "backend w = backend v"
  shows "fst (store_msg s n m d w) = fst (store_msg s n m d v)
         \<and> backend (snd (store_msg s n m d w)) = backend (snd (store_msg s n m d v))"
  using assms by (cases s) (auto simp: log_msg_def Let_def split: prod.splits option.splits)

lemma store_msg_same:
  assumes "backend w = backend v" and "logs w = logs v"
  shows "fst (store_msg s n m d w) = fst (store_msg s n m d v)
         \<and> backend (snd (store_msg s n m d w)) = backend (snd (store_msg s n m d v))
         \<and> logs (snd (store_msg s n m d w)) = logs (snd (store_msg s n m d v))"
  using assms by (cases s) (auto simp: log_msg_def Let_def split: prod.splits option.splits)





lemma dispatch_heap: "heap (snd (dispatch ss n m d w)) = heap w"
proof (induction ss arbitrary: w)
  case Nil
  show ?case by simp
next
  case (Cons s ss)
  let ?w = "w\<lparr>invocations := invocations w @ [(s, n, m, d)]\<rparr>"
  obtain e w' where r: "store_msg s n m d ?w = (e, w')" by (cases "store_msg s n m d ?w")
  have h: "heap w' = heap w" using store_msg_heap [of s n m d ?w] r by simp
  show ?case using r h Cons.IH [of w'] by (cases e) simp_all
qed

lemma dispatch_backend_only:
  assumes "backend w = backend v" and "invocations w = invocations v"
  shows "fst (dispatch ss n m d w) = fst (dispatch ss n m d v)
         \<and> backend (snd (dispatch ss n m d w)) = backend (snd (dispatch ss n m d v))
         \<and> invocations (snd (dispatch ss n m d w)) = invocations (snd (dispatch ss n m d v))"
  using assms
proof (induction ss arbitrary: w v)
  case Nil
  then show ?case by simp
next
  case (Cons s ss)
  let ?w = "w\<lparr>invocations := invocations w @ [(s, n, m, d)]\<rparr>"
  let ?v = "v\<lparr>invocations := invocations v @ [(s, n, m, d)]\<rparr>"
  obtain e w' where rw: "store_msg s n m d ?w = (e, w')" by (cases "store_msg s n m d ?w")
  obtain e' v' where rv: "store_msg s n m d ?v = (e', v')" by (cases "store_msg s n m d ?v")
  have "backend ?w = backend ?v" using Cons.prems by simp
  from store_msg_backend_only [OF this, of s n m d] rw rv
  have e: "e = e'" and b: "backend w' = backend v'" by simp_all
  have i: "invocations w' = invocations v'"
    using store_msg_invocations [of s n m d ?w] store_msg_invocations [of s n m d ?v] rw rv Cons.prems
    by simp
  have rv': "store_msg s n m d ?v = (e, v')" using rv e by simp
  show ?case
  proof (cases e)
    case None
    with rw rv' Cons.IH [OF b i] show ?thesis by simp
  next
    case (Some x)
    with rw rv' b i show ?thesis by simp
  qed
qed




subsection \<open>on_message\<close>

lemma on_message_no_match:
  assumes "regex_match rt (topic_prefix self) topic = None"
  shows "on_message rt self topic payload w
         = (None, w\<lparr>logs := logs w @ [MQTT_debug_received topic payload, MQTT_warning_no_match topic]\<rparr>)"
  using assms by (simp add: on_message_def log_msg_def)

lemma on_message_matched:
  assumes "regex_match rt (topic_prefix self) topic = Some (n, m)"
  shows "on_message rt self topic payload w =
     (case decode_payload rt (stringify self) m payload of
        Inl e \<Rightarrow> (Some e, received self topic payload n w)
      | Inr d \<Rightarrow>
         (case stores_attr self of
            None \<Rightarrow> (Some AttributeError, received self topic payload n w)
          | Some a \<Rightarrow> dispatch (heap w ! a) n m d
                        ((received self topic payload n w)\<lparr>heap := heap w @ [heap w ! a]\<rparr>)))"
  using assms
  by (simp add: on_message_def received_def stores_def log_msg_def Let_def
      split: sum.splits option.splits)

lemma received_eq:
  "received self topic payload n w
     = w\<lparr>logs := logs w @ MQTT_debug_received topic payload
                       # (if n \<in> set (node_names self) then []
                          else [MQTT_warning_unexpected_node n (node_names self)])\<rparr>"
  by (simp add: received_def log_msg_def Let_def)

lemma received_fields:
  "heap (received self topic payload n w) = heap w"
  "backend (received self topic payload n w) = backend w"
  "invocations (received self topic payload n w) = invocations w"
  by (simp_all add: received_def log_msg_def Let_def)

lemma on_message_heap_independent:
  assumes "\<And>a. stores_attr self = Some a \<Longrightarrow> heap v ! a = heap w ! a"
    and "backend v = backend w" and "invocations v = invocations w"
  shows "fst (on_message rt self topic payload v) = fst (on_message rt self topic payload w)
       \<and> backend (snd (on_message rt self topic payload v)) = backend (snd (on_message rt self topic payload w))
       \<and> invocations (snd (on_message rt self topic payload v)) = invocations (snd (on_message rt self topic payload w))"
proof (cases "regex_match rt (topic_prefix self) topic")
  case None
  with assms show ?thesis by (simp add: on_message_no_match)
next
  case (Some nm)
  obtain n m where nm: "nm = (n, m)" by (cases nm)
  note om = on_message_matched [OF Some [unfolded nm], of payload]
  show ?thesis
  proof (cases "decode_payload rt (stringify self) m payload")
    case (Inl e)
    with assms show ?thesis by (simp add: om received_fields)
  next
    case (Inr d)
    show ?thesis
    proof (cases "stores_attr self")
      case None
      with Inr assms show ?thesis by (simp add: om received_fields)
    next
      case (Some a')
      let ?V = "(received self topic payload n v)\<lparr>heap := heap v @ [heap v ! a']\<rparr>"
      let ?W = "(received self topic payload n w)\<lparr>heap := heap w @ [heap w ! a']\<rparr>"
      have "backend ?V = backend ?W" "invocations ?V = invocations ?W"
        using assms by (simp_all add: received_fields)
      from dispatch_backend_only [OF this, of "heap w ! a'" n m d] Inr Some assms(1) [OF Some]
      show ?thesis by (simp add: om)
    qed
  qed
qed

subsection \<open>Registration\<close>

text \<open>
  \<^verbatim>\<open>register_store\<close> creates the list at the first call and appends to it at every call:
  the list holds the registered stores in the order of registration, repeated ones
  included.
\<close>

lemma register_store_fresh:
  assumes "stores_attr self = None"
  shows "register_store self s w
           = (self\<lparr>stores_attr := Some (length (heap w))\<rparr>, w\<lparr>heap := heap w @ [[s]]\<rparr>)"
  using assms by (simp add: register_store_def)

lemma register_store_existing:
  assumes "stores_attr self = Some a" and "a < length (heap w)"
  shows "register_store self s w = (self, w\<lparr>heap := (heap w)[a := heap w ! a @ [s]]\<rparr>)"
  using assms by (simp add: register_store_def)

lemma register_all_existing:
  assumes "stores_attr self = Some a" and "a < length (heap w)"
  shows "register_all self ss w = (self, w\<lparr>heap := (heap w)[a := heap w ! a @ ss]\<rparr>)"
  using assms
proof (induction ss arbitrary: w)
  case Nil
  then show ?case by simp
next
  case (Cons s ss)
  let ?w = "w\<lparr>heap := (heap w)[a := heap w ! a @ [s]]\<rparr>"
  have "a < length (heap ?w)" using Cons.prems by simp
  from Cons.IH [OF Cons.prems(1) this] Cons.prems
  show ?case by (simp add: register_store_existing)
qed

lemma register_all_fresh:
  assumes "stores_attr self = None" and "ss \<noteq> []"
  shows "register_all self ss w
           = (self\<lparr>stores_attr := Some (length (heap w))\<rparr>, w\<lparr>heap := heap w @ [ss]\<rparr>)"
proof (cases ss)
  case Nil
  with assms show ?thesis by simp
next
  case (Cons s rest)
  let ?self = "self\<lparr>stores_attr := Some (length (heap w))\<rparr>"
  let ?w = "w\<lparr>heap := heap w @ [[s]]\<rparr>"
  have "stores_attr ?self = Some (length (heap w))" "length (heap w) < length (heap ?w)" by simp_all
  from register_all_existing [OF this, of rest] Cons assms(1)
  show ?thesis by (simp add: register_store_fresh)
qed

subsection \<open>The prefix\<close>

lemma startswith_slash: "startswith s ''/'' \<longleftrightarrow> (\<exists>t. s = CHR ''/'' # t)"
  by (cases s) (auto simp: startswith_def)

lemma startswith_slashes: "startswith s ''//'' \<longleftrightarrow> (\<exists>t. s = CHR ''/'' # CHR ''/'' # t)"
proof (cases s)
  case Nil
  then show ?thesis by (simp add: startswith_def)
next
  case (Cons c cs)
  then show ?thesis by (cases cs) (auto simp: startswith_def)
qed

lemma endswith_slash: "endswith s ''/'' \<longleftrightarrow> (\<exists>t. s = t @ ''/'')"
  by (cases s rule: rev_cases) (auto simp: endswith_def)

lemma endswith_slashes: "endswith s ''//'' \<longleftrightarrow> (\<exists>t. s = t @ ''//'')"
proof
  assume "endswith s ''//''"
  then have "drop (length s - length ''//'') s = ''//''" unfolding endswith_def by blast
  then have "s = take (length s - length ''//'') s @ ''//''" by (metis append_take_drop_id)
  then show "\<exists>t. s = t @ ''//''" ..
next
  assume "\<exists>t. s = t @ ''//''"
  then show "endswith s ''//''" by (auto simp: endswith_def)
qed

lemma setup_handlers_prefix:
  "topic_prefix (setup_handlers self) =
     (let p = topic_prefix self;
          q = (if p = [] \<or> startswith p ''/'' then p else ''/'' @ p)
      in if endswith q ''/'' then butlast q else q)"
  by (auto simp: setup_handlers_def Let_def endswith_def)

lemma normalised:
  fixes prefix :: string
  defines "q \<equiv> (if prefix = [] \<or> startswith prefix ''/'' then prefix else ''/'' @ prefix)"
  defines "p \<equiv> (if endswith q ''/'' then butlast q else q)"
  assumes "p \<noteq> []"
  shows "startswith p ''/''"
    and "\<not> startswith prefix ''//'' \<Longrightarrow> \<not> startswith p ''//''"
    and "\<not> endswith prefix ''//'' \<Longrightarrow> \<not> endswith p ''/''"
proof -
  have qs: "startswith q ''/''"
    using assms by (auto simp: startswith_slash endswith_def split: if_splits)
  show "startswith p ''/''"
  proof (cases "endswith q ''/''")
    case False
    with qs show ?thesis by (simp add: p_def)
  next
    case True
    then obtain t where t: "q = t @ ''/''" by (auto simp: endswith_slash)
    with True have "p = t" by (simp add: p_def)
    with assms(3) t qs show ?thesis by (cases t) (auto simp: startswith_slash)
  qed
  show "\<not> startswith p ''//''" if n: "\<not> startswith prefix ''//''"
  proof
    assume "startswith p ''//''"
    then obtain t where "p = CHR ''/'' # CHR ''/'' # t" by (auto simp: startswith_slashes)
    then have "startswith q ''//''"
      by (cases "endswith q ''/''") (auto simp: p_def startswith_slashes endswith_slash butlast_append Cons_eq_append_conv)
    with n show False
      by (auto simp: q_def startswith_slashes startswith_slash split: if_splits)
  qed
  show "\<not> endswith p ''/''" if n: "\<not> endswith prefix ''//''"
  proof
    assume e: "endswith p ''/''"
    then obtain t where t: "p = t @ ''/''" by (auto simp: endswith_slash)
    have "endswith q ''/''" using e by (auto simp: p_def split: if_splits)
    then obtain u where u: "q = u @ ''/''" by (auto simp: endswith_slash)
    then have "p = u" using \<open>endswith q ''/''\<close> by (simp add: p_def)
    with t u have q: "q = t @ ''//''" by simp
    show False
    proof (cases "prefix = [] \<or> startswith prefix ''/''")
      case True
      with q n show ?thesis by (auto simp: q_def endswith_slashes)
    next
      case False
      with q have "CHR ''/'' # prefix = t @ ''//''" by (simp add: q_def)
      with False n show ?thesis
        by (cases t) (auto simp: endswith_slashes startswith_slash)
    qed
  qed
qed

lemma register_store_prefix: "topic_prefix (fst (register_store self s w)) = topic_prefix self"
  by (simp add: register_store_def split: option.splits)

lemma handle_event_prefix: "topic_prefix (fst (handle_event rt sw ev)) = topic_prefix (fst sw)"
  by (cases sw; cases ev) (simp_all add: register_store_prefix)

lemma after_events_prefix: "topic_prefix (fst (after_events rt evs sw)) = topic_prefix (fst sw)"
  unfolding after_events_def
  by (induction evs arbitrary: sw) (simp_all add: handle_event_prefix)

subsection \<open>The samples\<close>

lemma sample_source_fields:
  "topic_prefix sample_source = []" "node_names sample_source = [''n'']"
  "stringify sample_source = []" "stores_attr sample_source = None"
  by (simp_all add: sample_source_def mqtt_source_init_def setup_handlers_def)

lemma sample_matches:
  "regex_match sample_rt [] ''/n/m'' = Some (''n'', ''m'')"
  "regex_match sample_rt [] ''/other/m'' = Some (''other'', ''m'')"
  by (simp_all add: regex_match_def token_char_def word_char_def)

lemma sample_decode_1:
  "decode_payload sample_rt [] ''m'' (Text ''1'') = Inr (PDict [(''value'', PFloat 1)])"
  "decode_payload sample_rt [] ''m'' (Bytes ''1'') = Inr (PDict [(''value'', PFloat 1)])"
  by (simp_all add: decode_payload_def single_value_def sample_rt_def sample_json_def)



lemma registered_sample_eq:
  "registered_sample =
     (sample_source\<lparr>stores_attr := Some 0\<rparr>,
      empty_world\<lparr>heap := [[InfluxStore unreachable_client, InfluxStore accepting_client]]\<rparr>)"
proof -
  have "stores_attr sample_source = None"
    by (simp add: sample_source_def mqtt_source_init_def setup_handlers_def)
  from register_all_fresh [OF this, of "[InfluxStore unreachable_client, InfluxStore accepting_client]" empty_world]
  show ?thesis by (simp add: registered_sample_def empty_world_def)
qed

lemma rejected_sample_eq:
  "rejected_sample =
     (sample_source\<lparr>stores_attr := Some 0\<rparr>,
      empty_world\<lparr>heap := [[InfluxStore rejecting_client, InfluxStore accepting_client]]\<rparr>)"
proof -
  have "stores_attr sample_source = None"
    by (simp add: sample_source_def mqtt_source_init_def setup_handlers_def)
  from register_all_fresh [OF this, of "[InfluxStore rejecting_client, InfluxStore accepting_client]" empty_world]
  show ?thesis by (simp add: rejected_sample_def empty_world_def)
qed

section \<open>The claims\<close>

subsection \<open>C1: values of a JSON object\<close>

text \<open>
  Claim C1: for every payload that decodes as a JSON object the decoder tries to convert
  each value to a float, leaves a value that does not convert as it is (string, boolean,
  null), and never fails hard.

  The loop catches \<^verbatim>\<open>ValueError\<close> only. \<^verbatim>\<open>float(None)\<close> raises \<^verbatim>\<open>TypeError\<close>, which leaves
  the loop and \<^verbatim>\<open>on_message\<close>: for the payload \<^verbatim>\<open>{"a": null}\<close> on the topic \<^verbatim>\<open>/n/m\<close> the
  handler raises \<^verbatim>\<open>TypeError\<close> after the debug record, and no store is called. (What does
  hold is \<open>decode_json_object\<close> above.)
\<close>

theorem json_null_value_raises_TypeError:
  \<open>on_message sample_rt (fst registered_sample) ''/n/m'' (Bytes ''{"a": null}'') (snd registered_sample)
     = (Some TypeError,
        (snd registered_sample)\<lparr>logs := [MQTT_debug_received ''/n/m'' (Bytes ''{"a": null}'')]\<rparr>)\<close>
proof -
  have \<open>decode_payload sample_rt [] ''m'' (Bytes ''{"a": null}'') = Inl TypeError\<close>
    by (simp add: decode_payload_def sample_rt_def sample_json_def)
  then show ?thesis
    by (simp add: registered_sample_eq on_message_matched sample_source_fields sample_matches
        received_def log_msg_def empty_world_def Let_def)
qed

subsection \<open>C2: topics that the pattern does not match\<close>

text \<open>
  Claim C2: for every topic that does not match the shape
  \<^verbatim>\<open><prefix>/<token>/<token>\<close> under the configured prefix, parsing fails, the message is
  dropped (logged, processing continues) and no store is invoked.

  As stated this fails: \<^verbatim>\<open>regex.match\<close> anchors the pattern at the start of the topic only.
  The topic \<^verbatim>\<open>/n/m:1\<close> has not the shape (its second segment is no token, and what follows
  the token \<^verbatim>\<open>m\<close> is no slash), yet the handler takes it for node \<^verbatim>\<open>n\<close> and measurement \<^verbatim>\<open>m\<close>
  and calls the store.
\<close>

theorem topic_with_trailing_text_forwarded:
  "\<not> (\<exists>node_name measurement_name. spec_shape sample_rt [] ''/n/m:1'' node_name measurement_name)
   \<and> invocations (snd (on_message sample_rt (fst registered_sample) ''/n/m:1'' (Bytes ''1'')
                          (snd registered_sample)))
     = [(InfluxStore unreachable_client, ''n'', ''m'', PDict [(''value'', PFloat 1)]),
        (InfluxStore accepting_client, ''n'', ''m'', PDict [(''value'', PFloat 1)])]"
proof
  show "\<not> (\<exists>node_name measurement_name. spec_shape sample_rt [] ''/n/m:1'' node_name measurement_name)"
  proof
    assume "\<exists>node_name measurement_name. spec_shape sample_rt [] ''/n/m:1'' node_name measurement_name"
    then obtain n m tail where t: "''/n/m:1'' = ''/'' @ n @ ''/'' @ m @ tail"
      and tk: "token sample_rt n" "token sample_rt m" and tl: "tail = [] \<or> startswith tail ''/''"
      by (auto simp: spec_shape_def)
    from regex_match_exact [OF tk, of tail "[]"] t tl
    have "regex_match sample_rt [] ''/n/m:1'' = Some (n, m)"
      using token_char_slash by (cases tail) (auto simp: startswith_def)
    then have "n = ''n''" "m = ''m''"
      by (simp_all add: regex_match_def token_char_def word_char_def)
    with t have "tail = '':1''" by simp
    with tl show False by (simp add: startswith_def)
  qed
next
  have "regex_match sample_rt [] ''/n/m:1'' = Some (''n'', ''m'')"
    by (simp add: regex_match_def token_char_def word_char_def)
  then show "invocations (snd (on_message sample_rt (fst registered_sample) ''/n/m:1'' (Bytes ''1'')
                          (snd registered_sample)))
     = [(InfluxStore unreachable_client, ''n'', ''m'', PDict [(''value'', PFloat 1)]),
        (InfluxStore accepting_client, ''n'', ''m'', PDict [(''value'', PFloat 1)])]"
    by (simp add: registered_sample_eq on_message_matched sample_source_fields sample_decode_1
        received_def log_msg_def empty_world_def unreachable_client_def accepting_client_def
        Let_def)
qed

text \<open>
  Claim C2, amended: for every topic that does not begin with
  \<^verbatim>\<open><prefix>/<token>/<token>\<close> (the prefix without a character that is special in a
  pattern), the handler logs the warning and returns normally, and no store is invoked:
  the world changes by the two log records only.
\<close>

theorem unmatched_topic_dropped:
  assumes "regex_literal (topic_prefix self)"
    and "\<not> shape_at_start rt (topic_prefix self) topic"
  shows "on_message rt self topic payload w
           = (None, w\<lparr>logs := logs w @ [MQTT_debug_received topic payload,
                                         MQTT_warning_no_match topic]\<rparr>)
         \<and> invocations (snd (on_message rt self topic payload w)) = invocations w
         \<and> backend (snd (on_message rt self topic payload w)) = backend w"
proof -
  have "regex_match rt (topic_prefix self) topic = None"
    using assms(2) by (simp add: regex_match_None_iff)
  then show ?thesis by (simp add: on_message_no_match)
qed

theorem unmatched_topic_dropped_witness:
  "regex_literal (topic_prefix (fst registered_sample))
   \<and> \<not> shape_at_start sample_rt (topic_prefix (fst registered_sample)) ''/n''
   \<and> on_message sample_rt (fst registered_sample) ''/n'' (Bytes ''1'') (snd registered_sample)
       = (None, (snd registered_sample)\<lparr>logs := [MQTT_debug_received ''/n'' (Bytes ''1''),
                                                  MQTT_warning_no_match ''/n'']\<rparr>)
   \<and> invocations (snd (on_message sample_rt (fst registered_sample) ''/n'' (Bytes ''1'')
                          (snd registered_sample))) = []"
proof -
  have p: "topic_prefix (fst registered_sample) = []"
    by (simp add: registered_sample_eq sample_source_fields)
  have l: "regex_literal (topic_prefix (fst registered_sample))"
    by (simp add: p regex_literal_def)
  have "regex_match sample_rt (topic_prefix (fst registered_sample)) ''/n'' = None"
    by (simp add: p regex_match_def token_char_def word_char_def)
  then have s: "\<not> shape_at_start sample_rt (topic_prefix (fst registered_sample)) ''/n''"
    by (simp add: regex_match_None_iff)
  show ?thesis
    using l s unmatched_topic_dropped
      [OF l s, where payload = "Bytes ''1''" and w = "snd registered_sample"]
    by (simp add: registered_sample_eq empty_world_def)
qed

subsection \<open>C3: two stores, one event\<close>

text \<open>
  Claim C3: with two stores registered, one event invokes both in the order of
  registration with the same fields, even if the call of the first raises a write failure.

  As stated this fails: nothing in the loop \<^verbatim>\<open>for store in self.stores\<close> catches an
  exception. When the backend of the first store rejects the write, \<^verbatim>\<open>write_points\<close> raises
  a client error, \<^verbatim>\<open>store_msg\<close> lets it pass, and the second store is never called: the
  handler raises, and the backend holds no point.
\<close>

theorem raising_store_stops_dispatch:
  "fst (on_message sample_rt (fst rejected_sample) ''/n/m'' (Bytes ''1'') (snd rejected_sample))
     = Some InfluxDBClientError
   \<and> invocations (snd (on_message sample_rt (fst rejected_sample) ''/n/m'' (Bytes ''1'')
                          (snd rejected_sample)))
     = [(InfluxStore rejecting_client, ''n'', ''m'', PDict [(''value'', PFloat 1)])]
   \<and> backend (snd (on_message sample_rt (fst rejected_sample) ''/n/m'' (Bytes ''1'')
                      (snd rejected_sample))) = []"
  by (simp add: rejected_sample_eq on_message_matched sample_source_fields sample_matches
      sample_decode_1 received_def log_msg_def empty_world_def rejecting_client_def Let_def)

text \<open>
  Claim C3, amended: with two stores registered, one event invokes both in the order of
  registration with the same fields whenever the call of the first returns normally,
  as it does when the first is an \<open>InfluxStore\<close> whose write fails with a connection
  error (the witness).

  The theorem: the handler ends as the call \<^verbatim>\<open>store_msg\<close> of the second store ends, made
  after that of the first, both with the node name, the measurement name and the fields
  of the message, and it leaves the log and the backend that these two calls leave, made
  one after the other on the world that holds the handler's own log records.
\<close>

theorem two_stores_both_invoked:
  assumes "regex_literal (topic_prefix self)"
    and "regex_match rt (topic_prefix self) topic = Some (n, m)"
    and "decode_payload rt (stringify self) m payload = Inr d"
    and "stores_attr self = Some a" and "heap w ! a = [s1, s2]"
    and "fst (store_msg s1 n m d w) = None"
  shows "(let w0 = w\<lparr>logs := logs w @ MQTT_debug_received topic payload
                                  # (if n \<in> set (node_names self) then []
                                     else [MQTT_warning_unexpected_node n (node_names self)])\<rparr>;
              first_call = store_msg s1 n m d w0;
              second_call = store_msg s2 n m d (snd first_call)
          in fst first_call = None
           \<and> fst (on_message rt self topic payload w) = fst second_call
           \<and> logs (snd (on_message rt self topic payload w)) = logs (snd second_call)
           \<and> backend (snd (on_message rt self topic payload w)) = backend (snd second_call))
         \<and> invocations (snd (on_message rt self topic payload w))
             = invocations w @ [(s1, n, m, d), (s2, n, m, d)]"
proof -
  let ?w0 = "received self topic payload n w"
  let ?W = "?w0\<lparr>heap := heap w @ [heap w ! a]\<rparr>"
  let ?W1 = "?W\<lparr>invocations := invocations ?W @ [(s1, n, m, d)]\<rparr>"
  have om: "on_message rt self topic payload w = dispatch [s1, s2] n m d ?W"
    using assms(3,4,5) by (simp add: on_message_matched [OF assms(2)])
  obtain e1 w1 where r1: "store_msg s1 n m d ?W1 = (e1, w1)" by (cases "store_msg s1 n m d ?W1")
  have b1: "backend ?W1 = backend ?w0" "logs ?W1 = logs ?w0" by simp_all
  have "backend ?w0 = backend w" by (simp add: received_fields)
  from store_msg_backend_only [OF this, of s1 n m d] assms(6)
  have f0: "fst (store_msg s1 n m d ?w0) = None" by simp
  from store_msg_same [OF b1, of s1 n m d] r1 f0
  have e1: "e1 = None"
    and s1: "backend w1 = backend (snd (store_msg s1 n m d ?w0))"
            "logs w1 = logs (snd (store_msg s1 n m d ?w0))"
    by simp_all
  have i1: "invocations w1 = invocations w @ [(s1, n, m, d)]"
    using store_msg_invocations [of s1 n m d ?W1] r1 by (simp add: received_fields)
  let ?W2 = "w1\<lparr>invocations := invocations w1 @ [(s2, n, m, d)]\<rparr>"
  obtain e2 w2 where r2: "store_msg s2 n m d ?W2 = (e2, w2)" by (cases "store_msg s2 n m d ?W2")
  have "backend ?W2 = backend (snd (store_msg s1 n m d ?w0))"
    and "logs ?W2 = logs (snd (store_msg s1 n m d ?w0))"
    using s1 by simp_all
  from store_msg_same [OF this, of s2 n m d] r2
  have s2: "e2 = fst (store_msg s2 n m d (snd (store_msg s1 n m d ?w0)))"
    "backend w2 = backend (snd (store_msg s2 n m d (snd (store_msg s1 n m d ?w0))))"
    "logs w2 = logs (snd (store_msg s2 n m d (snd (store_msg s1 n m d ?w0))))"
    by simp_all
  have i2: "invocations w2 = invocations w @ [(s1, n, m, d), (s2, n, m, d)]"
    using store_msg_invocations [of s2 n m d ?W2] r2 i1 by simp
  have d: "dispatch [s1, s2] n m d ?W = (e2, w2)"
    using r1 e1 r2 by (cases e2) simp_all
  show ?thesis
    unfolding om d Let_def received_eq [symmetric]
    using f0 s2 i2 by simp
qed

theorem two_stores_both_invoked_witness:
  "regex_literal (topic_prefix (fst registered_sample))
   \<and> regex_match sample_rt (topic_prefix (fst registered_sample)) ''/n/m'' = Some (''n'', ''m'')
   \<and> decode_payload sample_rt (stringify (fst registered_sample)) ''m'' (Bytes ''1'')
       = Inr (PDict [(''value'', PFloat 1)])
   \<and> stores_attr (fst registered_sample) = Some 0
   \<and> heap (snd registered_sample) ! 0
       = [InfluxStore unreachable_client, InfluxStore accepting_client]
   \<and> fst (store_msg (InfluxStore unreachable_client) ''n'' ''m'' (PDict [(''value'', PFloat 1)])
            (snd registered_sample)) = None
   \<and> fst (on_message sample_rt (fst registered_sample) ''/n/m'' (Bytes ''1'')
            (snd registered_sample)) = None
   \<and> logs (snd (on_message sample_rt (fst registered_sample) ''/n/m'' (Bytes ''1'')
                   (snd registered_sample)))
       = [MQTT_debug_received ''/n/m'' (Bytes ''1''),
          Influx_debug_writing \<lparr>measurement = ''m'', tags = [(''sensor_node'', ''n'')],
                                 influx_fields = PDict [(''value'', PFloat 1)]\<rparr>,
          Influx_exception RequestsConnectionError,
          Influx_debug_writing \<lparr>measurement = ''m'', tags = [(''sensor_node'', ''n'')],
                                 influx_fields = PDict [(''value'', PFloat 1)]\<rparr>]
   \<and> backend (snd (on_message sample_rt (fst registered_sample) ''/n/m'' (Bytes ''1'')
                      (snd registered_sample)))
       = [\<lparr>measurement = ''m'', tags = [(''sensor_node'', ''n'')],
            influx_fields = PDict [(''value'', PFloat 1)]\<rparr>]
   \<and> invocations (snd (on_message sample_rt (fst registered_sample) ''/n/m'' (Bytes ''1'')
                          (snd registered_sample)))
       = [(InfluxStore unreachable_client, ''n'', ''m'', PDict [(''value'', PFloat 1)]),
          (InfluxStore accepting_client, ''n'', ''m'', PDict [(''value'', PFloat 1)])]"
proof -
  have 1: "regex_literal (topic_prefix (fst registered_sample))"
    by (simp add: registered_sample_eq sample_source_fields regex_literal_def)
  have 2: "regex_match sample_rt (topic_prefix (fst registered_sample)) ''/n/m''
             = Some (''n'', ''m'')"
    by (simp add: registered_sample_eq sample_source_fields sample_matches)
  have 3: "decode_payload sample_rt (stringify (fst registered_sample)) ''m'' (Bytes ''1'')
       = Inr (PDict [(''value'', PFloat 1)])"
    by (simp add: registered_sample_eq sample_source_fields sample_decode_1)
  have 4: "stores_attr (fst registered_sample) = Some 0"
    by (simp add: registered_sample_eq)
  have 5: "heap (snd registered_sample) ! 0
             = [InfluxStore unreachable_client, InfluxStore accepting_client]"
    by (simp add: registered_sample_eq)
  have 6: "fst (store_msg (InfluxStore unreachable_client) ''n'' ''m''
                  (PDict [(''value'', PFloat 1)]) (snd registered_sample)) = None"
    by (simp add: unreachable_client_def log_msg_def)
  from two_stores_both_invoked [OF 1 2 3 4 5 6] 1 2 3 4 5 6 show ?thesis
    by (simp add: registered_sample_eq empty_world_def sample_source_fields Let_def
        log_msg_def unreachable_client_def accepting_client_def)
qed

subsection \<open>C4: scalar payloads of stringified measurements\<close>




subsection \<open>C5: write failures in the InfluxStore\<close>

text \<open>
  Claim C5: every write failure of the concrete store (backend out of reach, or backend
  rejecting the write) is caught and logged inside \<^verbatim>\<open>store_msg\<close>, does not reach the caller
  and leaves later calls unaffected.

  As stated this fails: \<^verbatim>\<open>store_msg\<close> catches \<^verbatim>\<open>requests.exceptions.ConnectionError\<close> and
  nothing else. The error the client raises when the backend rejects a write leaves
  \<^verbatim>\<open>store_msg\<close>.
\<close>

theorem rejected_write_propagates:
  "fst (store_msg (InfluxStore rejecting_client) ''n'' ''m'' (PDict [(''value'', PFloat 1)])
          empty_world)
     = Some InfluxDBClientError"
  by (simp add: rejecting_client_def empty_world_def log_msg_def)

text \<open>
  Claim C5, amended: a connection error of a write (backend out of reach) is caught and
  logged inside \<^verbatim>\<open>store_msg\<close> and does not reach the caller: the call returns normally,
  having added its debug record and the exception to the log. Later calls are unaffected:
  a following call whose write the backend accepts returns normally with the point written.
\<close>

theorem connection_error_caught:
  assumes "isinstance_dict data"
    and "write_points [\<lparr>measurement = measurement_name, tags = [(''sensor_node'', node_name)],
                        influx_fields = data\<rparr>] (backend w)
           = (Some RequestsConnectionError, b)"
  shows "store_msg (InfluxStore write_points) node_name measurement_name data w
           = (None, w\<lparr>logs := logs w @ [Influx_debug_writing
                                           \<lparr>measurement = measurement_name,
                                            tags = [(''sensor_node'', node_name)],
                                            influx_fields = data\<rparr>,
                                         Influx_exception RequestsConnectionError],
                       backend := b\<rparr>)
         \<and> (\<forall>node' measurement' data' b'.
               isinstance_dict data'
               \<and> write_points [\<lparr>measurement = measurement', tags = [(''sensor_node'', node')],
                                 influx_fields = data'\<rparr>] b = (None, b')
               \<longrightarrow> store_msg (InfluxStore write_points) node' measurement' data'
                     (snd (store_msg (InfluxStore write_points) node_name measurement_name data w))
                   = (None, w\<lparr>logs := logs w @ [Influx_debug_writing
                                                   \<lparr>measurement = measurement_name,
                                                    tags = [(''sensor_node'', node_name)],
                                                    influx_fields = data\<rparr>,
                                                 Influx_exception RequestsConnectionError,
                                                 Influx_debug_writing
                                                   \<lparr>measurement = measurement',
                                                    tags = [(''sensor_node'', node')],
                                                    influx_fields = data'\<rparr>],
                               backend := b'\<rparr>))"
  using assms by (simp add: log_msg_def)

theorem connection_error_caught_witness:
  "isinstance_dict (PDict [(''value'', PFloat (1::rat))])
   \<and> recovering_client [\<lparr>measurement = ''m'', tags = [(''sensor_node'', ''n'')],
                          influx_fields = PDict [(''value'', PFloat 1)]\<rparr>] (backend outage_world)
       = (Some RequestsConnectionError, (0, []))
   \<and> fst (store_msg (InfluxStore recovering_client) ''n'' ''m'' (PDict [(''value'', PFloat 1)])
            outage_world) = None
   \<and> recovering_client [\<lparr>measurement = ''m'', tags = [(''sensor_node'', ''n'')],
                          influx_fields = PDict [(''value'', PFloat 2)]\<rparr>] (0, [])
       = (None, (0, [\<lparr>measurement = ''m'', tags = [(''sensor_node'', ''n'')],
                       influx_fields = PDict [(''value'', PFloat 2)]\<rparr>]))
   \<and> backend (snd (store_msg (InfluxStore recovering_client) ''n'' ''m''
                      (PDict [(''value'', PFloat 2)])
                      (snd (store_msg (InfluxStore recovering_client) ''n'' ''m''
                              (PDict [(''value'', PFloat 1)]) outage_world))))
       = (0, [\<lparr>measurement = ''m'', tags = [(''sensor_node'', ''n'')],
                influx_fields = PDict [(''value'', PFloat 2)]\<rparr>])"
proof -
  have d: "isinstance_dict (PDict [(''value'', PFloat (1::rat))])" by simp
  have f: "recovering_client [\<lparr>measurement = ''m'', tags = [(''sensor_node'', ''n'')],
                          influx_fields = PDict [(''value'', PFloat 1)]\<rparr>] (backend outage_world)
       = (Some RequestsConnectionError, (0, []))"
    by (simp add: recovering_client_def outage_world_def)
  have g: "isinstance_dict (PDict [(''value'', PFloat (2::rat))])
      \<and> recovering_client [\<lparr>measurement = ''m'', tags = [(''sensor_node'', ''n'')],
                          influx_fields = PDict [(''value'', PFloat 2)]\<rparr>] (0, [])
       = (None, (0, [\<lparr>measurement = ''m'', tags = [(''sensor_node'', ''n'')],
                       influx_fields = PDict [(''value'', PFloat 2)]\<rparr>]))"
    by (simp add: recovering_client_def)
  note c = connection_error_caught
    [where data = "PDict [(''value'', PFloat 1)]" and write_points = recovering_client
       and measurement_name = "''m''" and node_name = "''n''" and w = outage_world
       and b = "(0, [])", OF d f]
  from c have 1: "fst (store_msg (InfluxStore recovering_client) ''n'' ''m''
                         (PDict [(''value'', PFloat 1)]) outage_world) = None"
    by simp
  from c g have 2: "store_msg (InfluxStore recovering_client) ''n'' ''m''
                      (PDict [(''value'', PFloat 2)])
                      (snd (store_msg (InfluxStore recovering_client) ''n'' ''m''
                              (PDict [(''value'', PFloat 1)]) outage_world))
       = (None, outage_world\<lparr>logs := logs outage_world @ [Influx_debug_writing
                                           \<lparr>measurement = ''m'',
                                            tags = [(''sensor_node'', ''n'')],
                                            influx_fields = PDict [(''value'', PFloat 1)]\<rparr>,
                                         Influx_exception RequestsConnectionError,
                                         Influx_debug_writing
                                           \<lparr>measurement = ''m'',
                                            tags = [(''sensor_node'', ''n'')],
                                            influx_fields = PDict [(''value'', PFloat 2)]\<rparr>],
                       backend := (0, [\<lparr>measurement = ''m'', tags = [(''sensor_node'', ''n'')],
                       influx_fields = PDict [(''value'', PFloat 2)]\<rparr>])\<rparr>)"
    by blast
  from d f g 1 show ?thesis unfolding 2 by simp
qed

subsection \<open>C6: the stored prefix\<close>

text \<open>
  Claim C6: after the normalisation at configuration time, a stored prefix that is not
  empty starts with a single slash and does not end with a slash, and it is never
  modified afterwards.

  As stated this fails: \<^verbatim>\<open>_setup_handlers\<close> adds a slash in front of a prefix that has
  none and removes one slash at the end. The prefix \<^verbatim>\<open>a//\<close> is stored as \<^verbatim>\<open>/a/\<close>, and the
  prefix \<^verbatim>\<open>//a\<close> is stored as it is.
\<close>

theorem prefix_slashes_kept:
  "topic_prefix (mqtt_source_init [''n''] ''a//'' []) = ''/a/''
   \<and> topic_prefix (mqtt_source_init [''n''] ''//a'' []) = ''//a''"
  by (simp add: mqtt_source_init_def setup_handlers_def startswith_def endswith_def)

text \<open>
  Claim C6, amended: after the normalisation at configuration time, a stored prefix that
  is not empty starts with a slash, with a single one unless the configured prefix began
  with two, and does not end with a slash unless the configured prefix ended with two;
  no later call (registering a store, reading \<^verbatim>\<open>stores\<close>, \<^verbatim>\<open>on_connect\<close>, \<^verbatim>\<open>on_message\<close>)
  modifies it.
\<close>

theorem prefix_normalised:
  "(let p = topic_prefix (mqtt_source_init names prefix stringify_set) in
      (p \<noteq> [] \<longrightarrow> startswith p ''/''
                  \<and> (\<not> startswith prefix ''//'' \<longrightarrow> \<not> startswith p ''//'')
                  \<and> (\<not> endswith prefix ''//'' \<longrightarrow> \<not> endswith p ''/''))
      \<and> topic_prefix (fst (after_events rt evs
                              (mqtt_source_init names prefix stringify_set, w))) = p)"
  using normalised [of prefix]
  by (simp add: Let_def after_events_prefix mqtt_source_init_def setup_handlers_prefix)

theorem prefix_normalised_witness:
  "topic_prefix (mqtt_source_init [''n''] ''home/'' []) = ''/home''
   \<and> startswith ''/home'' ''/''
   \<and> \<not> startswith ''home/'' ''//'' \<and> \<not> startswith ''/home'' ''//''
   \<and> \<not> endswith ''home/'' ''//'' \<and> \<not> endswith ''/home'' ''/''
   \<and> topic_prefix (fst (after_events sample_rt
                           [Register (InfluxStore accepting_client), Connect 0,
                            Message ''/home/n/m'' (Bytes ''1'')]
                           (mqtt_source_init [''n''] ''home/'' [], empty_world))) = ''/home''"
proof -
  have p: "topic_prefix (mqtt_source_init [''n''] ''home/'' []) = ''/home''"
    by (simp add: mqtt_source_init_def setup_handlers_def startswith_def endswith_def)
  have a: "\<not> startswith ''home/'' ''//''" "\<not> endswith ''home/'' ''//''"
    by (simp_all add: startswith_def endswith_def)
  from prefix_normalised [of "[''n'']" "''home/''" "[]" sample_rt
      "[Register (InfluxStore accepting_client), Connect 0, Message ''/home/n/m'' (Bytes ''1'')]"
      empty_world] a
  show ?thesis unfolding p Let_def by simp
qed

subsection \<open>C7: payloads that are neither JSON nor a float\<close>




subsection \<open>C8: node names outside the allow-list\<close>




subsection \<open>C9: a source without a registered store\<close>

text \<open>
  Claim C9: a source owns zero or more stores, so on a source on which \<^verbatim>\<open>register_store\<close>
  was never called a message with a well-formed topic is handled without raising
  (dispatch over an empty list); registering appends, keeps the order and permits
  duplicates.

  \<^verbatim>\<open>register_store\<close> creates the attribute \<^verbatim>\<open>_stores\<close> when the object has none; the
  property \<^verbatim>\<open>stores\<close> reads it without that check. On a source without a registered store
  \<^verbatim>\<open>on_message\<close> raises \<^verbatim>\<open>AttributeError\<close> at \<^verbatim>\<open>self.stores\<close>. (The second half of the claim
  holds: \<open>register_all_fresh\<close> and \<open>register_all_existing\<close> above.)
\<close>

theorem no_registered_store_raises_AttributeError:
  "on_message sample_rt sample_source ''/n/m'' (Bytes ''1'') empty_world
     = (Some AttributeError, empty_world\<lparr>logs := [MQTT_debug_received ''/n/m'' (Bytes ''1'')]\<rparr>)"
  by (simp add: on_message_matched sample_source_fields sample_matches sample_decode_1
      received_def log_msg_def empty_world_def Let_def)

subsection \<open>C10: the property stores returns a copy\<close>

text \<open>
  Claim C10: the property \<^verbatim>\<open>stores\<close> returns a fresh copy of the list of registered stores
  at every call, so that mutating the returned list leaves the list of the source, and
  the stores called at later dispatches, unchanged.

  The theorem, for a source that has its list (at least one store was registered):
  \<^verbatim>\<open>stores\<close> returns the address of a new list object with the elements of the list of
  the source; this address is not that of the source's list; a second call returns
  another address; and whatever list \<open>xs\<close> a mutation puts at the returned address, the
  list of the source is as before and every later message ends the same way, calls the
  same stores with the same arguments and leaves the same backend.
\<close>

theorem stores_is_fresh_copy:
  assumes "stores_attr self = Some a" and "a < length (heap w)"
  shows "stores self w = (Inr (length (heap w)), w\<lparr>heap := heap w @ [heap w ! a]\<rparr>)
       \<and> length (heap w) \<noteq> a
       \<and> fst (stores self (snd (stores self w))) \<noteq> fst (stores self w)
       \<and> (\<forall>xs. let w' = snd (stores self w);
                   mutated = w'\<lparr>heap := (heap w')[length (heap w) := xs]\<rparr>
               in heap mutated ! a = heap w ! a
                \<and> (\<forall>topic payload.
                      fst (on_message rt self topic payload mutated)
                        = fst (on_message rt self topic payload w')
                    \<and> invocations (snd (on_message rt self topic payload mutated))
                        = invocations (snd (on_message rt self topic payload w'))
                    \<and> backend (snd (on_message rt self topic payload mutated))
                        = backend (snd (on_message rt self topic payload w'))))"
proof -
  have st: "stores self w = (Inr (length (heap w)), w\<lparr>heap := heap w @ [heap w ! a]\<rparr>)"
    using assms(1) by (simp add: stores_def)
  have ne: "length (heap w) \<noteq> a" using assms(2) by simp
  have again: "fst (stores self (snd (stores self w))) \<noteq> fst (stores self w)"
    using assms(1) by (simp add: stores_def)
  have mut: "let w' = snd (stores self w);
                   mutated = w'\<lparr>heap := (heap w')[length (heap w) := xs]\<rparr>
               in heap mutated ! a = heap w ! a
                \<and> (\<forall>topic payload.
                      fst (on_message rt self topic payload mutated)
                        = fst (on_message rt self topic payload w')
                    \<and> invocations (snd (on_message rt self topic payload mutated))
                        = invocations (snd (on_message rt self topic payload w'))
                    \<and> backend (snd (on_message rt self topic payload mutated))
                        = backend (snd (on_message rt self topic payload w')))" for xs
  proof -
    let ?w' = "w\<lparr>heap := heap w @ [heap w ! a]\<rparr>"
    let ?m = "?w'\<lparr>heap := (heap ?w')[length (heap w) := xs]\<rparr>"
    have h: "heap ?m ! a = heap w ! a" using assms(2) ne by (simp add: nth_append)
    have h': "heap ?w' ! a = heap w ! a" using assms(2) by (simp add: nth_append)
    have "heap ?m ! a' = heap ?w' ! a'" if "stores_attr self = Some a'" for a'
      using that assms(1) h h' by simp
    moreover have "backend ?m = backend ?w'" "invocations ?m = invocations ?w'" by simp_all
    ultimately have "fst (on_message rt self topic payload ?m)
                       = fst (on_message rt self topic payload ?w')
       \<and> backend (snd (on_message rt self topic payload ?m))
                       = backend (snd (on_message rt self topic payload ?w'))
       \<and> invocations (snd (on_message rt self topic payload ?m))
                       = invocations (snd (on_message rt self topic payload ?w'))"
      for topic payload
      using on_message_heap_independent [of self ?m ?w' rt topic payload] by blast
    with h show ?thesis unfolding st by (simp add: Let_def)
  qed
  from st ne again mut show ?thesis by blast
qed

theorem stores_is_fresh_copy_witness:
  "stores_attr (fst registered_sample) = Some 0 \<and> 0 < length (heap (snd registered_sample))
   \<and> fst (stores (fst registered_sample) (snd registered_sample)) = Inr 1
   \<and> heap (snd (stores (fst registered_sample) (snd registered_sample)))
       = [[InfluxStore unreachable_client, InfluxStore accepting_client],
          [InfluxStore unreachable_client, InfluxStore accepting_client]]
   \<and> fst (on_message sample_rt (fst registered_sample) ''/n/m'' (Bytes ''1'')
            ((snd (stores (fst registered_sample) (snd registered_sample)))
               \<lparr>heap := [[InfluxStore unreachable_client, InfluxStore accepting_client], []]\<rparr>))
       = fst (on_message sample_rt (fst registered_sample) ''/n/m'' (Bytes ''1'')
               (snd (stores (fst registered_sample) (snd registered_sample))))
   \<and> invocations (snd (on_message sample_rt (fst registered_sample) ''/n/m'' (Bytes ''1'')
            ((snd (stores (fst registered_sample) (snd registered_sample)))
               \<lparr>heap := [[InfluxStore unreachable_client, InfluxStore accepting_client], []]\<rparr>)))
       = invocations (snd (on_message sample_rt (fst registered_sample) ''/n/m'' (Bytes ''1'')
               (snd (stores (fst registered_sample) (snd registered_sample)))))"
proof -
  have 1: "stores_attr (fst registered_sample) = Some 0"
    by (simp add: registered_sample_eq)
  have 2: "0 < length (heap (snd registered_sample))"
    by (simp add: registered_sample_eq)
  have h: "heap (snd registered_sample)
             = [[InfluxStore unreachable_client, InfluxStore accepting_client]]"
    by (simp add: registered_sample_eq empty_world_def)
  note c = stores_is_fresh_copy [OF 1 2, of sample_rt]
  from c have st: "stores (fst registered_sample) (snd registered_sample)
      = (Inr 1, (snd registered_sample)
                 \<lparr>heap := [[InfluxStore unreachable_client, InfluxStore accepting_client],
                           [InfluxStore unreachable_client, InfluxStore accepting_client]]\<rparr>)"
    by (simp add: h)
  from c have "let w' = snd (stores (fst registered_sample) (snd registered_sample));
                   mutated = w'\<lparr>heap := (heap w')[length (heap (snd registered_sample)) := []]\<rparr>
               in fst (on_message sample_rt (fst registered_sample) ''/n/m'' (Bytes ''1'') mutated)
                        = fst (on_message sample_rt (fst registered_sample) ''/n/m'' (Bytes ''1'') w')
                    \<and> invocations (snd (on_message sample_rt (fst registered_sample) ''/n/m'' (Bytes ''1'') mutated))
                        = invocations (snd (on_message sample_rt (fst registered_sample) ''/n/m'' (Bytes ''1'') w'))"
    unfolding Let_def by blast
  then show ?thesis using 1 2 unfolding st by (simp add: h Let_def)
qed

end
